theory Spec2Isabelle
  imports Main "HOL-Library.Sublist"
begin

section \<open>Data model\<close>

text \<open>
  The actor of \<^verbatim>\<open>src/rotor/actor_base.cpp\<close>, its messages
  (\<^verbatim>\<open>include/rotor/messages.hpp\<close>, \<^verbatim>\<open>include/rotor/message.hpp\<close>) and its plugins.
  Pointers that always designate an object (plugins, handlers, addresses, the supervisor,
  identity tags) are tokens; pointers the code tests for null (\<^verbatim>\<open>init_request\<close>,
  \<^verbatim>\<open>shutdown_request\<close>, \<^verbatim>\<open>callback\<close>) are options.
\<close>

type_synonym actor_ref = nat
type_synonym plugin_ptr = nat
type_synonym identity_t = nat
type_synonym callback_t = nat

text \<open>
  \<^verbatim>\<open>state_t\<close> is declared in \<^verbatim>\<open>state.h\<close>; its enumerators are those
  \<^verbatim>\<open>actor_base.cpp\<close> names.
\<close>

datatype state_t =
  UNKNOWN | NEW | INITIALIZING | INITIALIZED | OPERATIONAL | SHUTTING_DOWN | SHUTTED_DOWN


datatype processing_result_t = IGNORED | CONSUMED | FINISHED

text \<open>
  An \<^verbatim>\<open>assert\<close> that does not hold and the dereference of a null pointer end the
  call; they are the two failures of the model.
\<close>

datatype failure = Assertion_failed | Null_dereference

text \<open>
  An address is an identity together with the supervisor that owns it
  (\<^verbatim>\<open>addr->supervisor\<close>).
\<close>

record address_t =
  ident :: nat
  supervisor :: actor_ref

text \<open>
  A handler, as far as \<^verbatim>\<open>unsubscribe\<close> reads it: \<^verbatim>\<open>h->actor_ptr->address\<close>.
\<close>

record handler_base_t =
  handler_ident :: nat
  actor_ptr_address :: address_t

datatype subscription_point_t = Subscription_point_t handler_base_t address_t

subsection \<open>Payloads (\<^verbatim>\<open>messages.hpp\<close>)\<close>

datatype initialize_actor_t = Initialize_actor_t address_t
datatype shutdown_request_t = Shutdown_request_t address_t
datatype link_request_t = Link_request_t (client_addr: address_t)

datatype payload_t =
    Shutdown_trigger_t address_t
  | Subscription_confirmation_t subscription_point_t
  | External_unsubscription_t subscription_point_t
  | Unsubscription_confirmation_t subscription_point_t "callback_t option"

text \<open>
  The response kinds named by \<^verbatim>\<open>using response_t = ...\<close> in
  \<^verbatim>\<open>initialize_actor_t\<close>, \<^verbatim>\<open>shutdown_request_t\<close> and \<^verbatim>\<open>link_request_t\<close>.
\<close>

datatype response_t = Initialize_confirmation_t | Shutdown_confirmation_t | Link_response_t

text \<open>The error kinds of the specification.\<close>

datatype error_code_t =
    Request_timeout | Dispatch_failed | Actor_not_linkable | Name_already_registered
  | Service_not_found | Plugin_activation_failed | Still_shutting_down

subsection \<open>The message of \<^verbatim>\<open>message.hpp\<close>\<close>




subsection \<open>Messages as the actor sends them\<close>

text \<open>
  Modelled from the spec: the request wrapper of \<^verbatim>\<open>request.hpp\<close>, which is not among
  the sources. The spec: a message is \<^verbatim>\<open>{ destination: Address, payload: PayloadKind }\<close>
  and, for requests, the payload additionally carries
  \<^verbatim>\<open>{ reply_to: Address, request_id }\<close>. \<open>msg_address\<close> is the \<^verbatim>\<open>address\<close> member
  (the destination) of the request message, \<open>request_payload\<close> the payload proper.
\<close>

record 'p request_t =
  msg_address :: address_t
  request_id :: nat
  reply_to_addr :: address_t
  request_payload :: 'p

text \<open>
  Modelled from the spec: the messages that \<^verbatim>\<open>send\<close> and \<^verbatim>\<open>reply_to\<close> build through
  \<^verbatim>\<open>message.h\<close>, which is not among the sources.
  The spec: a message is \<^verbatim>\<open>{ destination: Address, payload: PayloadKind }\<close>; for
  responses, the payload carries \<^verbatim>\<open>{ request_id, error?: ErrorCode }\<close>. A response also
  names its kind.
\<close>

datatype message =
    Message address_t payload_t
  | Response address_t nat "error_code_t option" response_t

text \<open>
  Modelled from the spec: \<^verbatim>\<open>reply_to(request_msg, args...)\<close> is declared in
  \<^verbatim>\<open>actor_base.h\<close>, which is not among the sources. The response goes to the reply
  address of the request, carries its request id and no error; \<open>res\<close> is the
  \<^verbatim>\<open>response_t\<close> of the request's payload type.
\<close>

definition reply_to :: "response_t \<Rightarrow> 'p request_t \<Rightarrow> message" where
  "reply_to res req = Response (reply_to_addr req) (request_id req) None res"

subsection \<open>Plugins\<close>

text \<open>
  \<^verbatim>\<open>plugin_t\<close> is an interface of virtual methods whose implementations are not among
  the sources: they are parameters. \<open>'w\<close> is the state of the plugin objects, which each
  call may read and change. \<open>actor p w\<close> says that the \<^verbatim>\<open>actor\<close> pointer of plugin
  \<open>p\<close> is set.
\<close>

record 'w plugin_t =
  identity :: "plugin_ptr \<Rightarrow> identity_t"
  actor :: "plugin_ptr \<Rightarrow> 'w \<Rightarrow> bool"
  activate :: "plugin_ptr \<Rightarrow> 'w \<Rightarrow> 'w"
  deactivate :: "plugin_ptr \<Rightarrow> 'w \<Rightarrow> 'w"
  handle_init :: "plugin_ptr \<Rightarrow> initialize_actor_t request_t option \<Rightarrow> 'w \<Rightarrow> bool \<times> 'w"
  handle_shutdown :: "plugin_ptr \<Rightarrow> shutdown_request_t request_t option \<Rightarrow> 'w \<Rightarrow> bool \<times> 'w"
  handle_subscription :: "plugin_ptr \<Rightarrow> message \<Rightarrow> 'w \<Rightarrow> processing_result_t \<times> 'w"
  handle_unsubscription :: "plugin_ptr \<Rightarrow> message \<Rightarrow> 'w \<Rightarrow> processing_result_t \<times> 'w"
  handle_unsubscription_external :: "plugin_ptr \<Rightarrow> message \<Rightarrow> 'w \<Rightarrow> processing_result_t \<times> 'w"

text \<open>
  What the actor does to its plugins, in program order: the calls with their results,
  the reads of \<^verbatim>\<open>plugin->actor\<close> and the insertions into \<^verbatim>\<open>deactivating_plugins\<close>.
\<close>

datatype event =
    Activate plugin_ptr
  | Read_actor plugin_ptr bool
  | Insert_deactivating identity_t
  | Deactivate plugin_ptr
  | Handle_init plugin_ptr "initialize_actor_t request_t option" bool
  | Handle_shutdown plugin_ptr "shutdown_request_t request_t option" bool
  | Handle_subscription plugin_ptr message processing_result_t
  | Handle_unsubscription plugin_ptr message processing_result_t
  | Handle_unsubscription_external plugin_ptr message processing_result_t

subsection \<open>The actor\<close>

text \<open>
  The data members of \<^verbatim>\<open>actor_base_t\<close> that \<^verbatim>\<open>actor_base.cpp\<close> reads or writes.
  \<open>self\<close> is the identity of the object (\<^verbatim>\<open>this\<close>), \<open>supervisor_get_address\<close> is
  \<^verbatim>\<open>supervisor->get_address()\<close>. \<open>queue\<close> holds the messages sent so far, oldest first,
  \<open>heap\<close> the state of the plugin objects, \<open>trace\<close> the events so far, oldest first.
\<close>

record 'w actor_base_t =
  self :: actor_ref
  supervisor_get_address :: address_t
  address :: address_t
  unlink_timeout :: "nat option"
  state :: state_t
  plugins :: "plugin_ptr list"
  init_plugins :: "plugin_ptr list"
  shutdown_plugins :: "plugin_ptr list"
  subscription_plugins :: "plugin_ptr list"
  unsubscription_plugins :: "plugin_ptr list"
  activating_plugins :: "identity_t set"
  deactivating_plugins :: "identity_t set"
  init_request :: "initialize_actor_t request_t option"
  shutdown_request :: "shutdown_request_t request_t option"
  queue :: "message list"
  heap :: 'w
  trace :: "event list"

text \<open>
  Modelled from the spec: \<^verbatim>\<open>send<P>(dest, args...)\<close> is declared in \<^verbatim>\<open>actor_base.h\<close>,
  which is not among the sources. It puts one message with destination \<open>dest\<close> and the
  payload built from the arguments at the end of the queue.
\<close>

definition send :: "address_t \<Rightarrow> payload_t \<Rightarrow> 'w actor_base_t \<Rightarrow> 'w actor_base_t" where
  "send dest p a = a\<lparr>queue := queue a @ [Message dest p]\<rparr>"

section \<open>Operations of \<^verbatim>\<open>actor_base.cpp\<close>\<close>

subsection \<open>Shutdown trigger\<close>

definition do_shutdown :: "'w actor_base_t \<Rightarrow> failure + 'w actor_base_t" where
  "do_shutdown a =
     (if state a \<noteq> NEW \<and> state a \<noteq> UNKNOWN
      then Inr (send (supervisor_get_address a) (Shutdown_trigger_t (address a)) a)
      else Inl Assertion_failed)"

subsection \<open>Plugin slots\<close>


subsection \<open>Activation and deactivation of plugins\<close>

fun activate_loop :: "'w plugin_t \<Rightarrow> plugin_ptr list \<Rightarrow> 'w actor_base_t \<Rightarrow> 'w actor_base_t" where
  "activate_loop ops [] a = a"
| "activate_loop ops (plugin # rest) a =
     activate_loop ops rest
       (a\<lparr>heap := activate ops plugin (heap a), trace := trace a @ [Activate plugin]\<rparr>)"

definition activate_plugins :: "'w plugin_t \<Rightarrow> 'w actor_base_t \<Rightarrow> 'w actor_base_t" where
  "activate_plugins ops a = activate_loop ops (plugins a) a"

definition do_initialize :: "'w plugin_t \<Rightarrow> 'w actor_base_t \<Rightarrow> 'w actor_base_t" where
  "do_initialize ops a = activate_plugins ops a"

text \<open>
  The loop of \<^verbatim>\<open>deactivate_plugins\<close>; its list argument is what the reverse iterator
  still has to visit, the element under the iterator first.
\<close>

fun deactivate_loop :: "'w plugin_t \<Rightarrow> plugin_ptr list \<Rightarrow> 'w actor_base_t \<Rightarrow> 'w actor_base_t" where
  "deactivate_loop ops [] a = a"
| "deactivate_loop ops (plugin # rest) a =
     (if actor ops plugin (heap a)
      then deactivate_loop ops rest
             (a\<lparr>deactivating_plugins := insert (identity ops plugin) (deactivating_plugins a),
                heap := deactivate ops plugin (heap a),
                trace := trace a @ [Read_actor plugin True,
                                    Insert_deactivating (identity ops plugin),
                                    Deactivate plugin]\<rparr>)
      else deactivate_loop ops rest (a\<lparr>trace := trace a @ [Read_actor plugin False]\<rparr>))"

definition deactivate_plugins :: "'w plugin_t \<Rightarrow> 'w actor_base_t \<Rightarrow> 'w actor_base_t" where
  "deactivate_plugins ops a = deactivate_loop ops (rev (plugins a)) a"

definition commit_plugin_activation ::
  "'w plugin_t \<Rightarrow> plugin_ptr \<Rightarrow> bool \<Rightarrow> 'w actor_base_t \<Rightarrow> 'w actor_base_t" where
  "commit_plugin_activation ops plugin success a =
     (if success
      then a\<lparr>activating_plugins := activating_plugins a - {identity ops plugin}\<rparr>
      else deactivate_plugins ops a)"

definition commit_plugin_deactivation ::
  "'w plugin_t \<Rightarrow> plugin_ptr \<Rightarrow> 'w actor_base_t \<Rightarrow> 'w actor_base_t" where
  "commit_plugin_deactivation ops plugin a =
     a\<lparr>deactivating_plugins := deactivating_plugins a - {identity ops plugin}\<rparr>"

text \<open>
  The destructor. When \<^verbatim>\<open>deactivating_plugins\<close> is not empty it reads the element
  \<^verbatim>\<open>p\<close> at \<^verbatim>\<open>begin()\<close> and asserts \<^verbatim>\<open>!p && "a plugin was not deactivated"\<close>. Whichever
  element that is, it is an identity that \<^verbatim>\<open>plugin->identity()\<close> returned: a tag that
  designates the plugin's class, not a null pointer. So \<^verbatim>\<open>!p\<close> is false and the
  assertion fails whenever the set is not empty. Otherwise the plugins are deleted: the
  result is the list of the deleted plugins.
\<close>

definition actor_base_t_dtor :: "'w actor_base_t \<Rightarrow> failure + plugin_ptr list" where
  "actor_base_t_dtor a =
     (if deactivating_plugins a \<noteq> {} then Inl Assertion_failed else Inr (plugins a))"

subsection \<open>Lifecycle entry points\<close>

definition init_start :: "'w actor_base_t \<Rightarrow> 'w actor_base_t" where
  "init_start a = a\<lparr>state := INITIALIZING\<rparr>"

text \<open>
  \<^verbatim>\<open>reply_to(*init_request)\<close> dereferences the stored request; the response kind is
  \<^verbatim>\<open>initialize_actor_t::response_t\<close>.
\<close>

definition init_finish :: "'w actor_base_t \<Rightarrow> failure + 'w actor_base_t" where
  "init_finish a =
     (case init_request a of
        None \<Rightarrow> Inl Null_dereference
      | Some req \<Rightarrow>
          Inr (a\<lparr>queue := queue a @ [reply_to Initialize_confirmation_t req],
                 init_request := None,
                 state := INITIALIZED\<rparr>))"

definition on_start :: "'w actor_base_t \<Rightarrow> 'w actor_base_t" where
  "on_start a = a\<lparr>state := OPERATIONAL\<rparr>"

definition shutdown_start :: "'w actor_base_t \<Rightarrow> 'w actor_base_t" where
  "shutdown_start a = a\<lparr>state := SHUTTING_DOWN\<rparr>"

definition shutdown_finish :: "'w actor_base_t \<Rightarrow> 'w actor_base_t" where
  "shutdown_finish a =
     (case shutdown_request a of
        Some req \<Rightarrow>
          a\<lparr>queue := queue a @ [reply_to Shutdown_confirmation_t req],
            shutdown_request := None,
            state := SHUTTED_DOWN\<rparr>
      | None \<Rightarrow> a\<lparr>state := SHUTTED_DOWN\<rparr>)"





subsection \<open>Unsubscription\<close>

definition unsubscribe ::
  "handler_base_t \<Rightarrow> address_t \<Rightarrow> callback_t option \<Rightarrow> 'w actor_base_t
     \<Rightarrow> failure + 'w actor_base_t" where
  "unsubscribe h addr callback a =
     (let dest = actor_ptr_address h;
          point = Subscription_point_t h addr
      in if supervisor addr = self a
         then Inr (send dest (Unsubscription_confirmation_t point callback) a)
         else if callback = None
              then Inr (send dest (External_unsubscription_t point) a)
              else Inl Assertion_failed)"

subsection \<open>Polling a slot\<close>

text \<open>
  \<^verbatim>\<open>poll\<close> walks the slot with a reverse iterator. \<open>poll_from fn message k ps w calls\<close>
  is the loop with the iterator on the element of index \<open>k - 1\<close> (\<open>k = 0\<close> is
  \<^verbatim>\<open>rend()\<close>): \<^verbatim>\<open>IGNORED\<close> moves the iterator one element towards the front,
  \<^verbatim>\<open>CONSUMED\<close> returns, \<^verbatim>\<open>FINISHED\<close> erases the element and goes on with the one
  before it. \<open>calls\<close> lists the plugins asked so far with their answers.
\<close>

fun poll_from ::
  "(plugin_ptr \<Rightarrow> 'm \<Rightarrow> 'w \<Rightarrow> processing_result_t \<times> 'w) \<Rightarrow> 'm \<Rightarrow> nat \<Rightarrow> plugin_ptr list \<Rightarrow> 'w
     \<Rightarrow> (plugin_ptr \<times> processing_result_t) list
     \<Rightarrow> plugin_ptr list \<times> 'w \<times> (plugin_ptr \<times> processing_result_t) list" where
  "poll_from fn message 0 ps w calls = (ps, w, calls)"
| "poll_from fn message (Suc k) ps w calls =
     (let plugin = ps ! k
      in case fn plugin message w of
           (IGNORED, w') \<Rightarrow> poll_from fn message k ps w' (calls @ [(plugin, IGNORED)])
         | (CONSUMED, w') \<Rightarrow> (ps, w', calls @ [(plugin, CONSUMED)])
         | (FINISHED, w') \<Rightarrow>
             poll_from fn message k (take k ps @ drop (Suc k) ps) w'
               (calls @ [(plugin, FINISHED)]))"

definition poll ::
  "plugin_ptr list \<Rightarrow> 'm \<Rightarrow> (plugin_ptr \<Rightarrow> 'm \<Rightarrow> 'w \<Rightarrow> processing_result_t \<times> 'w) \<Rightarrow> 'w
     \<Rightarrow> plugin_ptr list \<times> 'w \<times> (plugin_ptr \<times> processing_result_t) list" where
  "poll ps message fn w = poll_from fn message (length ps) ps w []"



definition on_unsubscription_external ::
  "'w plugin_t \<Rightarrow> message \<Rightarrow> 'w actor_base_t \<Rightarrow> 'w actor_base_t" where
  "on_unsubscription_external ops message a =
     (case poll (unsubscription_plugins a) message (handle_unsubscription_external ops) (heap a) of
        (ps, w, calls) \<Rightarrow>
          a\<lparr>unsubscription_plugins := ps, heap := w,
            trace := trace a @ map (\<lambda>(p, r). Handle_unsubscription_external p message r) calls\<rparr>)"

section \<open>Notions the theorems are stated with\<close>

subsection \<open>Sequences of lifecycle calls\<close>

text \<open>
  The five entry points that assign \<^verbatim>\<open>state\<close>, as values, and what a sequence of such
  calls does to an actor; a failing call ends the sequence.
\<close>

datatype lifecycle_call = Init_start | Init_finish | On_start | Shutdown_start | Shutdown_finish

fun lifecycle_step :: "lifecycle_call \<Rightarrow> 'w actor_base_t \<Rightarrow> failure + 'w actor_base_t" where
  "lifecycle_step Init_start a = Inr (init_start a)"
| "lifecycle_step Init_finish a = init_finish a"
| "lifecycle_step On_start a = Inr (on_start a)"
| "lifecycle_step Shutdown_start a = Inr (shutdown_start a)"
| "lifecycle_step Shutdown_finish a = Inr (shutdown_finish a)"

fun lifecycle_run :: "lifecycle_call list \<Rightarrow> 'w actor_base_t \<Rightarrow> failure + 'w actor_base_t" where
  "lifecycle_run [] a = Inr a"
| "lifecycle_run (c # cs) a =
     (case lifecycle_step c a of Inl e \<Rightarrow> Inl e | Inr a' \<Rightarrow> lifecycle_run cs a')"

text \<open>
  The state machine in the words of the specification: \<^verbatim>\<open>NEW -> INITIALIZING ->
  INITIALIZED -> OPERATIONAL -> SHUTTING_DOWN -> SHUT_DOWN\<close>, and \<^verbatim>\<open>INITIALIZING ->
  SHUTTING_DOWN\<close> on error. (\<^verbatim>\<open>SHUT_DOWN\<close> is \<^verbatim>\<open>SHUTTED_DOWN\<close> in the code.)
\<close>

fun spec_successors :: "state_t \<Rightarrow> state_t list" where
  "spec_successors NEW = [INITIALIZING]"
| "spec_successors INITIALIZING = [INITIALIZED, SHUTTING_DOWN]"
| "spec_successors INITIALIZED = [OPERATIONAL]"
| "spec_successors OPERATIONAL = [SHUTTING_DOWN]"
| "spec_successors SHUTTING_DOWN = [SHUTTED_DOWN]"
| "spec_successors SHUTTED_DOWN = []"
| "spec_successors UNKNOWN = []"

text \<open>The state an entry point assigns.\<close>

fun target :: "lifecycle_call \<Rightarrow> state_t" where
  "target Init_start = INITIALIZING"
| "target Init_finish = INITIALIZED"
| "target On_start = OPERATIONAL"
| "target Shutdown_start = SHUTTING_DOWN"
| "target Shutdown_finish = SHUTTED_DOWN"

text \<open>
  A sequence of calls in which every entry point is called in a state that the
  specification's state machine lets its target follow.
\<close>

fun conforming :: "lifecycle_call list \<Rightarrow> state_t \<Rightarrow> bool" where
  "conforming [] s = True"
| "conforming (c # cs) s = (target c \<in> set (spec_successors s) \<and> conforming cs (target c))"

text \<open>The position of a state on the path of the state machine.\<close>

fun rank :: "state_t \<Rightarrow> nat" where
  "rank UNKNOWN = 0"
| "rank NEW = 1"
| "rank INITIALIZING = 2"
| "rank INITIALIZED = 3"
| "rank OPERATIONAL = 4"
| "rank SHUTTING_DOWN = 5"
| "rank SHUTTED_DOWN = 6"

subsection \<open>Polling in the words of the specification\<close>




subsection \<open>Events of one step of \<^verbatim>\<open>deactivate_plugins\<close>\<close>

text \<open>
  What the loop does at a plugin whose \<^verbatim>\<open>actor\<close> pointer reads \<open>b\<close>: an active plugin
  has its identity inserted into \<^verbatim>\<open>deactivating_plugins\<close> and is then deactivated, an
  inactive one is only read.
\<close>

definition visit_events :: "'w plugin_t \<Rightarrow> plugin_ptr \<Rightarrow> bool \<Rightarrow> event list" where
  "visit_events ops p b =
     (if b then [Read_actor p True, Insert_deactivating (identity ops p), Deactivate p]
      else [Read_actor p False])"

text \<open>
  What the loop does to the state of the plugins at one plugin: a plugin whose \<^verbatim>\<open>actor\<close>
  pointer is set is deactivated, another one is left alone.
\<close>

definition deactivate_step :: "'w plugin_t \<Rightarrow> plugin_ptr \<Rightarrow> 'w \<Rightarrow> 'w" where
  "deactivate_step ops p w = (if actor ops p w then deactivate ops p w else w)"

text \<open>
  The plugins \<open>ps\<close> in the order of the visit, each with what its \<^verbatim>\<open>actor\<close> pointer
  reads at its turn, that is, in the state the plugins are in once the plugins before it
  have had their turn, starting from \<open>w\<close>.
\<close>

definition visits :: "'w plugin_t \<Rightarrow> plugin_ptr list \<Rightarrow> 'w \<Rightarrow> (plugin_ptr \<times> bool) list" where
  "visits ops ps w =
     map (\<lambda>i. (ps ! i, actor ops (ps ! i) (fold (deactivate_step ops) (take i ps) w)))
       [0..<length ps]"

section \<open>Example values\<close>

text \<open>
  A plugin implementation over a heap that lists the active plugins (the deactivation
  of plugin 3 takes plugin 1 down with it), requests and a
  message, and an actor with the plugins 1, 2 and 3 in its slots (and 4 in the
  subscription slot), which is itself the supervisor 7.
\<close>

definition example_ops :: "nat list plugin_t" where
  "example_ops =
     \<lparr>identity = (\<lambda>p. 100 + p),
      actor = (\<lambda>p w. p \<in> set w),
      activate = (\<lambda>p w. p # w),
      deactivate = (\<lambda>p w. if p = 3 then removeAll 1 (removeAll 3 w) else removeAll p w),
      handle_init = (\<lambda>p req w. (p \<noteq> 3, w)),
      handle_shutdown = (\<lambda>p req w. (p \<noteq> 1, w)),
      handle_subscription =
        (\<lambda>p m w. (if p = 2 then CONSUMED else if p = 3 then FINISHED else IGNORED, w)),
      handle_unsubscription = (\<lambda>p m w. (if p = 3 then FINISHED else IGNORED, w)),
      handle_unsubscription_external = (\<lambda>p m w. (IGNORED, w))\<rparr>"

definition example_init_request :: "initialize_actor_t request_t" where
  "example_init_request =
     \<lparr>msg_address = \<lparr>ident = 2, supervisor = 7\<rparr>, request_id = 1,
      reply_to_addr = \<lparr>ident = 1, supervisor = 7\<rparr>,
      request_payload = Initialize_actor_t \<lparr>ident = 2, supervisor = 7\<rparr>\<rparr>"


definition example_handler :: handler_base_t where
  "example_handler = \<lparr>handler_ident = 1, actor_ptr_address = \<lparr>ident = 2, supervisor = 7\<rparr>\<rparr>"


definition example_actor :: "nat list actor_base_t" where
  "example_actor =
     \<lparr>self = 7,
      supervisor_get_address = \<lparr>ident = 1, supervisor = 7\<rparr>,
      address = \<lparr>ident = 2, supervisor = 7\<rparr>,
      unlink_timeout = None,
      state = NEW,
      plugins = [1, 2, 3],
      init_plugins = [1, 2, 3],
      shutdown_plugins = [1, 2, 3],
      subscription_plugins = [1, 2, 3, 4],
      unsubscription_plugins = [1, 2, 3],
      activating_plugins = {},
      deactivating_plugins = {},
      init_request = Some example_init_request,
      shutdown_request = None,
      queue = [],
      heap = [1, 3],
      trace = []\<rparr>"

section \<open>Lifecycle states\<close>

lemma lifecycle_step_state: "lifecycle_step c a = Inr a' \<Longrightarrow> state a' = target c"
  by (cases c)
     (auto simp: init_start_def init_finish_def on_start_def shutdown_start_def
        shutdown_finish_def split: option.splits)

lemma target_not_new: "target c \<noteq> NEW \<and> target c \<noteq> UNKNOWN"
  by (cases c) simp_all

lemma lifecycle_run_not_new:
  "cs \<noteq> [] \<Longrightarrow> lifecycle_run cs a = Inr a' \<Longrightarrow> state a' \<noteq> NEW \<and> state a' \<noteq> UNKNOWN"
proof (induction cs arbitrary: a)
  case Nil
  then show ?case by simp
next
  case (Cons c cs)
  from Cons.prems obtain b where b: "lifecycle_step c a = Inr b" "lifecycle_run cs b = Inr a'"
    by (auto split: sum.splits)
  show ?case
  proof (cases "cs = []")
    case True
    with b have "a' = b" by simp
    with b(1) show ?thesis using lifecycle_step_state target_not_new by metis
  next
    case False
    with Cons.IH b(2) show ?thesis by blast
  qed
qed

lemma successor_rank: "s' \<in> set (spec_successors s) \<Longrightarrow> rank s < rank s'"
  by (cases s) auto

lemma conforming_rank:
  "conforming cs (state a) \<Longrightarrow> lifecycle_run cs a = Inr a'
     \<Longrightarrow> rank (state a) + length cs \<le> rank (state a')"
proof (induction cs arbitrary: a)
  case Nil
  then show ?case by simp
next
  case (Cons c cs)
  from Cons.prems obtain b where b: "lifecycle_step c a = Inr b" "lifecycle_run cs b = Inr a'"
    by (auto split: sum.splits)
  from b(1) have sb: "state b = target c" by (rule lifecycle_step_state)
  with Cons.prems(1) have "rank (state a) < rank (state b)" "conforming cs (state b)"
    by (simp_all add: successor_rank)
  with Cons.IH b(2) show ?case by fastforce
qed

text \<open>
  Claim C1, as the code has it. The entry points \<^verbatim>\<open>init_start\<close>, \<^verbatim>\<open>init_finish\<close>,
  \<^verbatim>\<open>on_start\<close>, \<^verbatim>\<open>shutdown_start\<close> and \<^verbatim>\<open>shutdown_finish\<close> assign their target
  state whatever the current state is. The new state is a successor of the old one in
  the state machine of the specification whenever the entry point is called in a state
  that its target may follow. No sequence of entry points returns an actor to \<^verbatim>\<open>NEW\<close>
  (or to \<^verbatim>\<open>UNKNOWN\<close>), and a sequence in which every call is made in such a state moves
  the actor strictly forward, one position or more with every call.
\<close>

theorem lifecycle_entry_points:
  "(lifecycle_step c a = Inr a' \<longrightarrow> state a' = target c)
   \<and> (lifecycle_step c a = Inr a' \<and> target c \<in> set (spec_successors (state a)) \<longrightarrow>
        state a' \<in> set (spec_successors (state a)))
   \<and> (cs \<noteq> [] \<and> lifecycle_run cs a = Inr b \<longrightarrow> state b \<noteq> NEW \<and> state b \<noteq> UNKNOWN)
   \<and> (conforming cs (state a) \<and> lifecycle_run cs a = Inr b \<longrightarrow>
        rank (state a) + length cs \<le> rank (state b))"
  using lifecycle_step_state [of c a a'] lifecycle_run_not_new [of cs a b]
    conforming_rank [of cs a b]
  by simp

theorem lifecycle_entry_points_witness:
  "lifecycle_step Init_start example_actor = Inr (init_start example_actor)
   \<and> target Init_start \<in> set (spec_successors (state example_actor))
   \<and> state (init_start example_actor) \<in> set (spec_successors (state example_actor))
   \<and> state (init_start example_actor) = INITIALIZING
   \<and> [Init_start, Init_finish, On_start, Shutdown_start, Shutdown_finish] \<noteq> []
   \<and> conforming [Init_start, Init_finish, On_start, Shutdown_start, Shutdown_finish]
        (state example_actor)
   \<and> map_sum id state
        (lifecycle_run [Init_start, Init_finish, On_start, Shutdown_start, Shutdown_finish]
           example_actor) = Inr SHUTTED_DOWN
   \<and> rank (state example_actor) + 5 \<le> rank SHUTTED_DOWN"
proof -
  let ?cs = "[Init_start, Init_finish, On_start, Shutdown_start, Shutdown_finish]"
  let ?b = "shutdown_finish (shutdown_start (on_start
              (example_actor\<lparr>queue := queue (init_start example_actor)
                   @ [reply_to Initialize_confirmation_t example_init_request],
                 init_request := None, state := INITIALIZED\<rparr>)))"
  have s: "state example_actor = NEW" by (simp add: example_actor_def)
  have h1: "lifecycle_step Init_start example_actor = Inr (init_start example_actor)" by simp
  have h2: "target Init_start \<in> set (spec_successors (state example_actor))" using s by simp
  have h3: "conforming ?cs (state example_actor)" using s by simp
  have h4: "lifecycle_run ?cs example_actor = Inr ?b"
    by (simp add: example_actor_def init_start_def init_finish_def)
  have sb: "state ?b = SHUTTED_DOWN"
    by (simp add: shutdown_finish_def split: option.splits)
  note t1 = lifecycle_entry_points [of Init_start example_actor "init_start example_actor" ?cs ?b]
  from t1 h1 h2 have c1: "state (init_start example_actor) = INITIALIZING
    \<and> state (init_start example_actor) \<in> set (spec_successors (state example_actor))" by simp
  from t1 h3 h4 have c2: "rank (state example_actor) + length ?cs \<le> rank (state ?b)" by blast
  from h1 h2 h3 h4 c1 c2 sb show ?thesis by simp
qed

text \<open>
  The claim as stated fails: \<^verbatim>\<open>init_start\<close> does not look at the state. After
  \<^verbatim>\<open>init_start\<close> and \<^verbatim>\<open>init_finish\<close> the actor is \<^verbatim>\<open>INITIALIZED\<close>; a further
  \<^verbatim>\<open>init_start\<close> returns it to \<^verbatim>\<open>INITIALIZING\<close>, which is no successor of
  \<^verbatim>\<open>INITIALIZED\<close>.
\<close>

theorem lifecycle_returns_counterexample:
  "map_sum id state (lifecycle_run [Init_start, Init_finish] example_actor) = Inr INITIALIZED
   \<and> map_sum id state (lifecycle_run [Init_start, Init_finish, Init_start] example_actor)
       = Inr INITIALIZING
   \<and> INITIALIZING \<notin> set (spec_successors INITIALIZED)"
  by (simp add: example_actor_def init_start_def init_finish_def)

section \<open>The init walk\<close>







section \<open>The shutdown walk\<close>






section \<open>Deactivation of plugins\<close>

lemma visits_Nil: "visits ops [] w = []"
  by (simp add: visits_def)

lemma visits_Cons:
  "visits ops (p # ps) w = (p, actor ops p w) # visits ops ps (deactivate_step ops p w)"
proof -
  have "[0..<length (p # ps)] = 0 # map Suc [0..<length ps]"
    by (simp add: upt_conv_Cons map_Suc_upt del: upt_Suc)
  then show ?thesis by (simp add: visits_def comp_def del: upt_Suc)
qed

lemma map_fst_visits: "map fst (visits ops ps w) = ps"
proof -
  have "map fst (visits ops ps w) = map (\<lambda>i. ps ! i) [0..<length ps]"
    by (simp add: visits_def comp_def)
  then show ?thesis by (simp add: map_nth)
qed

lemma deactivate_loop_frame:
  "\<exists>d w tr. deactivate_loop ops ps a = a\<lparr>deactivating_plugins := d, heap := w, trace := tr\<rparr>"
proof (induction ps arbitrary: a)
  case Nil
  have "a = a\<lparr>deactivating_plugins := deactivating_plugins a, heap := heap a,
              trace := trace a\<rparr>" by simp
  then show ?case by (metis deactivate_loop.simps(1))
next
  case (Cons p rest)
  show ?case
  proof (cases "actor ops p (heap a)")
    case True
    let ?a1 = "a\<lparr>deactivating_plugins := insert (identity ops p) (deactivating_plugins a),
            heap := deactivate ops p (heap a),
            trace := trace a @ [Read_actor p True, Insert_deactivating (identity ops p),
                                Deactivate p]\<rparr>"
    from Cons.IH [of ?a1] obtain d w tr where
      "deactivate_loop ops rest ?a1 = ?a1\<lparr>deactivating_plugins := d, heap := w, trace := tr\<rparr>"
      by blast
    with True have "deactivate_loop ops (p # rest) a
        = a\<lparr>deactivating_plugins := d, heap := w, trace := tr\<rparr>"
      by simp
    then show ?thesis by blast
  next
    case False
    let ?a1 = "a\<lparr>trace := trace a @ [Read_actor p False]\<rparr>"
    from Cons.IH [of ?a1] obtain d w tr where
      "deactivate_loop ops rest ?a1 = ?a1\<lparr>deactivating_plugins := d, heap := w, trace := tr\<rparr>"
      by blast
    with False have "deactivate_loop ops (p # rest) a
        = a\<lparr>deactivating_plugins := d, heap := w, trace := tr\<rparr>"
      by simp
    then show ?thesis by blast
  qed
qed

lemma deactivate_loop_visits:
  "trace (deactivate_loop ops ps a)
     = trace a @ concat (map (\<lambda>(p, b). visit_events ops p b) (visits ops ps (heap a)))
   \<and> deactivating_plugins (deactivate_loop ops ps a)
     = deactivating_plugins a \<union> identity ops ` {p. (p, True) \<in> set (visits ops ps (heap a))}
   \<and> heap (deactivate_loop ops ps a) = fold (deactivate_step ops) ps (heap a)"
proof (induction ps arbitrary: a)
  case Nil
  then show ?case by (simp add: visits_Nil)
next
  case (Cons p rest)
  let ?b = "actor ops p (heap a)"
  let ?a1 = "if ?b
     then a\<lparr>deactivating_plugins := insert (identity ops p) (deactivating_plugins a),
            heap := deactivate ops p (heap a),
            trace := trace a @ [Read_actor p True, Insert_deactivating (identity ops p),
                                Deactivate p]\<rparr>
     else a\<lparr>trace := trace a @ [Read_actor p False]\<rparr>"
  have step: "deactivate_loop ops (p # rest) a = deactivate_loop ops rest ?a1" by simp
  have t1: "trace ?a1 = trace a @ visit_events ops p ?b" by (simp add: visit_events_def)
  have d1: "deactivating_plugins ?a1
              = deactivating_plugins a \<union> (if ?b then {identity ops p} else {})" by simp
  have h1: "heap ?a1 = deactivate_step ops p (heap a)" by (simp add: deactivate_step_def)
  let ?vs = "visits ops rest (deactivate_step ops p (heap a))"
  have v: "visits ops (p # rest) (heap a) = (p, ?b) # ?vs" by (rule visits_Cons)
  from Cons.IH [of ?a1] have ih:
    "trace (deactivate_loop ops rest ?a1)
       = trace ?a1 @ concat (map (\<lambda>(p, b). visit_events ops p b) ?vs)"
    "deactivating_plugins (deactivate_loop ops rest ?a1)
       = deactivating_plugins ?a1 \<union> identity ops ` {q. (q, True) \<in> set ?vs}"
    "heap (deactivate_loop ops rest ?a1) = fold (deactivate_step ops) rest (heap ?a1)"
    unfolding h1 by blast+
  have s: "(if ?b then {identity ops p} else {}) \<union> identity ops ` {q. (q, True) \<in> set ?vs}
             = identity ops ` {q. (q, True) \<in> set ((p, ?b) # ?vs)}"
    by auto
  have "trace (deactivate_loop ops (p # rest) a)
     = trace a @ concat (map (\<lambda>(p, b). visit_events ops p b) (visits ops (p # rest) (heap a)))"
    unfolding step ih(1) t1 v by simp
  moreover have "deactivating_plugins (deactivate_loop ops (p # rest) a)
     = deactivating_plugins a
       \<union> identity ops ` {q. (q, True) \<in> set (visits ops (p # rest) (heap a))}"
    unfolding step ih(2) d1 v s [symmetric] by (simp add: Un_assoc)
  moreover have "heap (deactivate_loop ops (p # rest) a)
     = fold (deactivate_step ops) (p # rest) (heap a)"
    unfolding step ih(3) h1 by simp
  ultimately show ?case by blast
qed

lemma deactivate_loop_pure:
  "(\<And>p w. actor ops p w = act p) \<Longrightarrow>
   trace (deactivate_loop ops ps a)
     = trace a @ concat (map (\<lambda>p. visit_events ops p (act p)) ps)
   \<and> deactivating_plugins (deactivate_loop ops ps a)
     = deactivating_plugins a \<union> identity ops ` {p \<in> set ps. act p}"
proof (induction ps arbitrary: a)
  case Nil
  then show ?case by simp
next
  case (Cons p rest)
  let ?b = "actor ops p (heap a)"
  let ?a1 = "if ?b
     then a\<lparr>deactivating_plugins := insert (identity ops p) (deactivating_plugins a),
            heap := deactivate ops p (heap a),
            trace := trace a @ [Read_actor p True, Insert_deactivating (identity ops p),
                                Deactivate p]\<rparr>
     else a\<lparr>trace := trace a @ [Read_actor p False]\<rparr>"
  have b: "?b = act p" using Cons.prems by simp
  have step: "deactivate_loop ops (p # rest) a = deactivate_loop ops rest ?a1" by simp
  have t1: "trace ?a1 = trace a @ visit_events ops p (act p)"
    using b by (simp add: visit_events_def)
  have d1: "deactivating_plugins ?a1
              = deactivating_plugins a \<union> (if act p then {identity ops p} else {})"
    using b by simp
  have s: "(if act p then {identity ops p} else {}) \<union> identity ops ` {q \<in> set rest. act q}
             = identity ops ` {q \<in> set (p # rest). act q}"
    by auto
  from Cons.IH [of ?a1, OF Cons.prems] have ih:
    "trace (deactivate_loop ops rest ?a1)
       = trace ?a1 @ concat (map (\<lambda>p. visit_events ops p (act p)) rest)"
    "deactivating_plugins (deactivate_loop ops rest ?a1)
       = deactivating_plugins ?a1 \<union> identity ops ` {p \<in> set rest. act p}"
    by blast+
  have "trace (deactivate_loop ops (p # rest) a)
     = trace a @ concat (map (\<lambda>p. visit_events ops p (act p)) (p # rest))"
    unfolding step ih(1) t1 by simp
  moreover have "deactivating_plugins (deactivate_loop ops (p # rest) a)
     = deactivating_plugins a \<union> identity ops ` {q \<in> set (p # rest). act q}"
    unfolding step ih(2) d1 s [symmetric] by (simp add: Un_assoc)
  ultimately show ?case by blast
qed

lemma commit_deactivations:
  "deactivating_plugins (fold (commit_plugin_deactivation ops) qs b)
     = deactivating_plugins b - identity ops ` set qs"
proof (induction qs arbitrary: b)
  case Nil
  then show ?case by simp
next
  case (Cons q qs)
  have "deactivating_plugins (commit_plugin_deactivation ops q b)
          = deactivating_plugins b - {identity ops q}"
    by (simp add: commit_plugin_deactivation_def)
  with Cons.IH [of "commit_plugin_deactivation ops q b"] show ?case by auto
qed

text \<open>
  Claim C4. \<^verbatim>\<open>commit_plugin_activation(plugin, false)\<close> runs \<^verbatim>\<open>deactivate_plugins()\<close>,
  which visits every plugin once, in reverse order. At a plugin whose \<^verbatim>\<open>actor\<close> pointer
  is set when its turn comes (it is still active after the deactivations before it) it
  first inserts the identity into \<^verbatim>\<open>deactivating_plugins\<close> and then calls
  \<^verbatim>\<open>deactivate()\<close>; other plugins are skipped. So the set gains the identities of
  exactly the plugins found active, the state of the plugins is the initial one after
  exactly those deactivations, in that order, and nothing else of the actor changes.
  The destructor returns exactly when \<^verbatim>\<open>deactivating_plugins\<close> is empty, and after the
  deactivations of the plugins \<open>qs\<close> have been committed that is so exactly when every
  identity in the set belongs to one of them.
\<close>

theorem deactivate_plugins_on_failure:
  "commit_plugin_activation ops plugin False a = deactivate_plugins ops a
   \<and> map fst (visits ops (rev (plugins a)) (heap a)) = rev (plugins a)
   \<and> trace (deactivate_plugins ops a)
       = trace a @ concat (map (\<lambda>(p, b). visit_events ops p b)
                             (visits ops (rev (plugins a)) (heap a)))
   \<and> deactivating_plugins (deactivate_plugins ops a)
       = deactivating_plugins a
         \<union> identity ops ` {p. (p, True) \<in> set (visits ops (rev (plugins a)) (heap a))}
   \<and> heap (deactivate_plugins ops a) = fold (deactivate_step ops) (rev (plugins a)) (heap a)
   \<and> (deactivate_plugins ops a)\<lparr>deactivating_plugins := deactivating_plugins a,
         heap := heap a, trace := trace a\<rparr> = a
   \<and> ((\<forall>p w. actor ops p w = act p) \<longrightarrow>
        trace (deactivate_plugins ops a)
          = trace a @ concat (map (\<lambda>p. visit_events ops p (act p)) (rev (plugins a)))
        \<and> deactivating_plugins (deactivate_plugins ops a)
          = deactivating_plugins a \<union> identity ops ` {p \<in> set (plugins a). act p})
   \<and> ((\<exists>ds. actor_base_t_dtor b = Inr ds) \<longleftrightarrow> deactivating_plugins b = {})
   \<and> deactivating_plugins (fold (commit_plugin_deactivation ops) qs b)
        = deactivating_plugins b - identity ops ` set qs
   \<and> ((\<exists>ds. actor_base_t_dtor (fold (commit_plugin_deactivation ops) qs b) = Inr ds)
          \<longleftrightarrow> deactivating_plugins b \<subseteq> identity ops ` set qs)"
proof -
  let ?rs = "rev (plugins a)"
  have 1: "commit_plugin_activation ops plugin False a = deactivate_plugins ops a"
    by (simp add: commit_plugin_activation_def)
  have 2: "map fst (visits ops ?rs (heap a)) = ?rs" by (rule map_fst_visits)
  have v: "trace (deactivate_plugins ops a)
       = trace a @ concat (map (\<lambda>(p, b). visit_events ops p b) (visits ops ?rs (heap a)))"
    "deactivating_plugins (deactivate_plugins ops a)
       = deactivating_plugins a
         \<union> identity ops ` {p. (p, True) \<in> set (visits ops ?rs (heap a))}"
    "heap (deactivate_plugins ops a) = fold (deactivate_step ops) ?rs (heap a)"
    unfolding deactivate_plugins_def using deactivate_loop_visits [of ops ?rs a] by blast+
  obtain d w tr where
    "deactivate_plugins ops a = a\<lparr>deactivating_plugins := d, heap := w, trace := tr\<rparr>"
    unfolding deactivate_plugins_def using deactivate_loop_frame [of ops ?rs a] by blast
  then have fr: "(deactivate_plugins ops a)\<lparr>deactivating_plugins := deactivating_plugins a,
         heap := heap a, trace := trace a\<rparr> = a"
    by simp
  have 3: "(\<forall>p w. actor ops p w = act p) \<longrightarrow>
        trace (deactivate_plugins ops a)
          = trace a @ concat (map (\<lambda>p. visit_events ops p (act p)) (rev (plugins a)))
        \<and> deactivating_plugins (deactivate_plugins ops a)
          = deactivating_plugins a \<union> identity ops ` {p \<in> set (plugins a). act p}"
    using deactivate_loop_pure [of ops act ?rs a]
    by (simp add: deactivate_plugins_def)
  have 4: "(\<exists>ds. actor_base_t_dtor b = Inr ds) \<longleftrightarrow> deactivating_plugins b = {}"
    by (simp add: actor_base_t_dtor_def)
  have 5: "deactivating_plugins (fold (commit_plugin_deactivation ops) qs b)
        = deactivating_plugins b - identity ops ` set qs"
    by (rule commit_deactivations)
  have 6: "(\<exists>ds. actor_base_t_dtor (fold (commit_plugin_deactivation ops) qs b) = Inr ds)
          \<longleftrightarrow> deactivating_plugins b \<subseteq> identity ops ` set qs"
    unfolding actor_base_t_dtor_def 5 by auto
  from 1 2 v fr 3 4 5 6 show ?thesis by blast
qed

theorem deactivate_plugins_on_failure_witness:
  "plugins example_actor = [1, 2, 3] \<and> heap example_actor = [1, 3]
   \<and> visits example_ops [3, 2, 1] [1, 3] = [(3, True), (2, False), (1, False)]
   \<and> trace (commit_plugin_activation example_ops 2 False example_actor)
       = [Read_actor 3 True, Insert_deactivating 103, Deactivate 3,
          Read_actor 2 False, Read_actor 1 False]
   \<and> deactivating_plugins (commit_plugin_activation example_ops 2 False example_actor) = {103}
   \<and> heap (commit_plugin_activation example_ops 2 False example_actor) = []
   \<and> actor_base_t_dtor (commit_plugin_activation example_ops 2 False example_actor)
       = Inl Assertion_failed
   \<and> actor_base_t_dtor
        (fold (commit_plugin_deactivation example_ops) [3]
           (commit_plugin_activation example_ops 2 False example_actor)) = Inr [1, 2, 3]
   \<and> (\<forall>p w. actor (example_ops\<lparr>actor := \<lambda>p w. p \<noteq> 2\<rparr>) p w = (p \<noteq> 2))
   \<and> trace (deactivate_plugins (example_ops\<lparr>actor := \<lambda>p w. p \<noteq> 2\<rparr>) example_actor)
       = [Read_actor 3 True, Insert_deactivating 103, Deactivate 3,
          Read_actor 2 False,
          Read_actor 1 True, Insert_deactivating 101, Deactivate 1]
   \<and> deactivating_plugins
        (deactivate_plugins (example_ops\<lparr>actor := \<lambda>p w. p \<noteq> 2\<rparr>) example_actor)
       = {101, 103}"
proof -
  let ?d = "commit_plugin_activation example_ops 2 False example_actor"
  let ?ops = "example_ops\<lparr>actor := \<lambda>p w. p \<noteq> (2::nat)\<rparr>"
  let ?act = "\<lambda>p::nat. p \<noteq> 2"
  have e: "plugins example_actor = [1, 2, 3]" "heap example_actor = [1, 3]"
    "trace example_actor = []" "deactivating_plugins example_actor = {}"
    by (simp_all add: example_actor_def)
  have i: "identity ?ops = (\<lambda>p. 100 + p)" "identity example_ops = (\<lambda>p. 100 + p)"
    by (simp_all add: example_ops_def)
  have rv: "rev [1, 2, 3 :: nat] = [3, 2, 1]" by simp
  have vs: "visits example_ops [3, 2, 1] [1, 3] = [(3, True), (2, False), (1, False)]"
    by (simp add: visits_Cons visits_Nil deactivate_step_def example_ops_def)
  have fo: "fold (deactivate_step example_ops) [3, 2, 1] [1, 3] = []"
    by (simp add: deactivate_step_def example_ops_def)
  note t = deactivate_plugins_on_failure [where ops = example_ops and plugin = 2
      and a = example_actor and b = ?d and qs = "[3]"]
  note c = t [THEN conjunct1]
  note t3 = t [THEN conjunct2, THEN conjunct2, THEN conjunct1]
  note t4 = t [THEN conjunct2, THEN conjunct2, THEN conjunct2, THEN conjunct1]
  note t5 = t [THEN conjunct2, THEN conjunct2, THEN conjunct2, THEN conjunct2, THEN conjunct1]
  note t8 = t [THEN conjunct2, THEN conjunct2, THEN conjunct2, THEN conjunct2, THEN conjunct2,
      THEN conjunct2, THEN conjunct2, THEN conjunct1]
  note t10 = t [THEN conjunct2, THEN conjunct2, THEN conjunct2, THEN conjunct2, THEN conjunct2,
      THEN conjunct2, THEN conjunct2, THEN conjunct2, THEN conjunct2]
  have r1: "trace ?d = [Read_actor 3 True, Insert_deactivating 103, Deactivate 3,
          Read_actor 2 False, Read_actor 1 False]"
    unfolding c t3 e rv vs by (simp add: visit_events_def i)
  have r2: "deactivating_plugins ?d = {103}"
    unfolding c t4 e rv vs by (simp add: i)
  have r3: "heap ?d = []"
    unfolding c t5 e rv fo ..
  from t8 r2 have x: "actor_base_t_dtor ?d = Inl Assertion_failed"
    by (cases "actor_base_t_dtor ?d") (auto simp add: actor_base_t_dtor_def)
  have "deactivating_plugins ?d \<subseteq> identity example_ops ` set [3]"
    unfolding r2 i by simp
  with t10 obtain ds where
    ds: "actor_base_t_dtor (fold (commit_plugin_deactivation example_ops) [3] ?d) = Inr ds"
    by blast
  have pl: "plugins (fold (commit_plugin_deactivation example_ops) [3] ?d) = [1, 2, 3]"
    unfolding c
    by (simp add: commit_plugin_deactivation_def deactivate_plugins_def example_actor_def
          example_ops_def)
  from ds pl have y: "actor_base_t_dtor (fold (commit_plugin_deactivation example_ops) [3] ?d)
      = Inr [1, 2, 3]"
    by (auto simp add: actor_base_t_dtor_def split: if_splits)
  have h: "\<forall>p w. actor ?ops p w = ?act p" by simp
  note u = deactivate_plugins_on_failure [where ops = ?ops and a = example_actor
      and act = ?act]
  note u7 = u [THEN conjunct2, THEN conjunct2, THEN conjunct2, THEN conjunct2, THEN conjunct2,
      THEN conjunct2, THEN conjunct1, THEN mp, OF h]
  have z1: "trace (deactivate_plugins ?ops example_actor)
       = [Read_actor 3 True, Insert_deactivating 103, Deactivate 3,
          Read_actor 2 False,
          Read_actor 1 True, Insert_deactivating 101, Deactivate 1]"
    unfolding u7 [THEN conjunct1] e rv by (simp add: visit_events_def i)
  have z2: "deactivating_plugins (deactivate_plugins ?ops example_actor) = {101, 103}"
    unfolding u7 [THEN conjunct2] e by (auto simp add: i)
  show ?thesis
    using e(1,2) vs r1 r2 r3 x y h z1 z2 by (intro conjI)
qed

section \<open>Polling the subscription slots\<close>










section \<open>Unsubscription\<close>

text \<open>
  Claim C6, as the code has it. When the supervisor that owns the address is this
  actor, \<^verbatim>\<open>unsubscribe\<close> sends exactly one \<^verbatim>\<open>unsubscription_confirmation\<close> with the
  point and the callback to the address of the handler's actor. Otherwise, when no
  callback is given, it sends exactly one \<^verbatim>\<open>external_unsubscription\<close> with the point,
  to the same address, and no confirmation. Nothing else of the actor changes.
\<close>

theorem unsubscribe_sends:
  "(supervisor addr = self a \<longrightarrow>
      (\<exists>a'. unsubscribe h addr callback a = Inr a'
          \<and> queue a' = queue a @ [Message (actor_ptr_address h)
                (Unsubscription_confirmation_t (Subscription_point_t h addr) callback)]
          \<and> a'\<lparr>queue := queue a\<rparr> = a))
   \<and> (supervisor addr \<noteq> self a \<and> callback = None \<longrightarrow>
      (\<exists>a'. unsubscribe h addr callback a = Inr a'
          \<and> queue a' = queue a @ [Message (actor_ptr_address h)
                (External_unsubscription_t (Subscription_point_t h addr))]
          \<and> a'\<lparr>queue := queue a\<rparr> = a))
   \<and> (supervisor addr \<noteq> self a \<and> callback \<noteq> None \<longrightarrow>
      unsubscribe h addr callback a = Inl Assertion_failed)"
  by (simp add: unsubscribe_def send_def)

theorem unsubscribe_sends_witness:
  "supervisor \<lparr>ident = 3, supervisor = 7\<rparr> = self example_actor
   \<and> (\<exists>a'. unsubscribe example_handler \<lparr>ident = 3, supervisor = 7\<rparr> (Some 5) example_actor
               = Inr a'
          \<and> queue a' = [Message \<lparr>ident = 2, supervisor = 7\<rparr>
                (Unsubscription_confirmation_t
                   (Subscription_point_t example_handler \<lparr>ident = 3, supervisor = 7\<rparr>)
                   (Some 5))])
   \<and> supervisor \<lparr>ident = 4, supervisor = 8\<rparr> \<noteq> self example_actor
   \<and> (\<exists>a'. unsubscribe example_handler \<lparr>ident = 4, supervisor = 8\<rparr> None example_actor
               = Inr a'
          \<and> queue a' = [Message \<lparr>ident = 2, supervisor = 7\<rparr>
                (External_unsubscription_t
                   (Subscription_point_t example_handler \<lparr>ident = 4, supervisor = 8\<rparr>))])
   \<and> unsubscribe example_handler \<lparr>ident = 4, supervisor = 8\<rparr> (Some 7) example_actor
       = Inl Assertion_failed"
proof -
  let ?h = example_handler
  let ?l = "\<lparr>ident = 3, supervisor = 7\<rparr>"
  let ?e = "\<lparr>ident = 4, supervisor = 8\<rparr>"
  have s: "self example_actor = 7" and q: "queue example_actor = []"
    by (simp_all add: example_actor_def)
  have d: "actor_ptr_address ?h = \<lparr>ident = 2, supervisor = 7\<rparr>"
    by (simp add: example_handler_def)
  have l: "supervisor ?l = self example_actor" using s by simp
  have e: "supervisor ?e \<noteq> self example_actor \<and> (None :: callback_t option) = None"
    using s by simp
  from l unsubscribe_sends [where addr = ?l and a = example_actor and h = ?h
      and callback = "Some 5"]
  obtain a1 where
    "unsubscribe ?h ?l (Some 5) example_actor = Inr a1"
    "queue a1 = queue example_actor @ [Message (actor_ptr_address ?h)
                (Unsubscription_confirmation_t (Subscription_point_t ?h ?l) (Some 5))]"
    by blast
  moreover from e unsubscribe_sends [where addr = ?e and a = example_actor and h = ?h
      and callback = None]
  obtain a2 where
    "unsubscribe ?h ?e None example_actor = Inr a2"
    "queue a2 = queue example_actor @ [Message (actor_ptr_address ?h)
                (External_unsubscription_t (Subscription_point_t ?h ?e))]"
    by blast
  moreover from e unsubscribe_sends [where addr = ?e and a = example_actor and h = ?h
      and callback = "Some 7"]
  have "unsubscribe ?h ?e (Some 7) example_actor = Inl Assertion_failed" by blast
  ultimately show ?thesis using l e q d by simp
qed

text \<open>
  The claim as stated, for every call, fails: with an address of another supervisor
  and a callback the assertion \<^verbatim>\<open>!callback\<close> does not hold and no message is sent.
\<close>

theorem unsubscribe_every_call_counterexample:
  "supervisor \<lparr>ident = 4, supervisor = 8\<rparr> \<noteq> self example_actor
   \<and> unsubscribe example_handler \<lparr>ident = 4, supervisor = 8\<rparr> (Some 5) example_actor
       = Inl Assertion_failed"
  by (simp add: unsubscribe_def example_actor_def)

text \<open>
  Claim C10. With an address owned by another supervisor \<^verbatim>\<open>unsubscribe\<close> asserts that
  there is no callback: a call with one fails. So a call that returns with a callback
  was local, and a call that returns on the external path had no callback and sent an
  \<^verbatim>\<open>external_unsubscription\<close>, whose payload is the point alone.
\<close>

theorem unsubscribe_external_no_callback:
  "(supervisor addr \<noteq> self a \<and> callback \<noteq> None \<longrightarrow>
      unsubscribe h addr callback a = Inl Assertion_failed)
   \<and> (unsubscribe h addr callback a = Inr a' \<and> callback \<noteq> None \<longrightarrow> supervisor addr = self a)
   \<and> (unsubscribe h addr callback a = Inr a' \<and> supervisor addr \<noteq> self a \<longrightarrow>
        callback = None
        \<and> queue a' = queue a @ [Message (actor_ptr_address h)
                (External_unsubscription_t (Subscription_point_t h addr))])"
  by (auto simp add: unsubscribe_def send_def Let_def split: if_splits)

theorem unsubscribe_external_no_callback_witness:
  "supervisor \<lparr>ident = 4, supervisor = 8\<rparr> \<noteq> self example_actor
   \<and> unsubscribe example_handler \<lparr>ident = 4, supervisor = 8\<rparr> (Some 5) example_actor
       = Inl Assertion_failed
   \<and> unsubscribe example_handler \<lparr>ident = 3, supervisor = 7\<rparr> (Some 5) example_actor
       = Inr (send \<lparr>ident = 2, supervisor = 7\<rparr>
                (Unsubscription_confirmation_t
                   (Subscription_point_t example_handler \<lparr>ident = 3, supervisor = 7\<rparr>) (Some 5))
                example_actor)
   \<and> supervisor \<lparr>ident = 3, supervisor = 7\<rparr> = self example_actor
   \<and> unsubscribe example_handler \<lparr>ident = 4, supervisor = 8\<rparr> None example_actor
       = Inr (send \<lparr>ident = 2, supervisor = 7\<rparr>
                (External_unsubscription_t
                   (Subscription_point_t example_handler \<lparr>ident = 4, supervisor = 8\<rparr>))
                example_actor)
   \<and> queue (send \<lparr>ident = 2, supervisor = 7\<rparr>
                (External_unsubscription_t
                   (Subscription_point_t example_handler \<lparr>ident = 4, supervisor = 8\<rparr>))
                example_actor)
       = [Message \<lparr>ident = 2, supervisor = 7\<rparr>
            (External_unsubscription_t
               (Subscription_point_t example_handler \<lparr>ident = 4, supervisor = 8\<rparr>))]"
proof -
  let ?l = "\<lparr>ident = 3, supervisor = 7\<rparr>"
  let ?e = "\<lparr>ident = 4, supervisor = 8\<rparr>"
  let ?d = "\<lparr>ident = 2, supervisor = 7\<rparr>"
  let ?a1 = "send ?d (Unsubscription_confirmation_t
                   (Subscription_point_t example_handler ?l) (Some 5)) example_actor"
  let ?a2 = "send ?d (External_unsubscription_t
                   (Subscription_point_t example_handler ?e)) example_actor"
  have s: "self example_actor = 7" and q: "queue example_actor = []"
    by (simp_all add: example_actor_def)
  have d: "actor_ptr_address example_handler = ?d" by (simp add: example_handler_def)
  have e: "supervisor ?e \<noteq> self example_actor" using s by simp
  have u1: "unsubscribe example_handler ?l (Some 5) example_actor = Inr ?a1"
    using s d by (simp add: unsubscribe_def)
  have u2: "unsubscribe example_handler ?e None example_actor = Inr ?a2"
    using s d by (simp add: unsubscribe_def)
  from e unsubscribe_external_no_callback [where addr = ?e and a = example_actor
      and callback = "Some 5" and h = example_handler]
  have c1: "unsubscribe example_handler ?e (Some 5) example_actor = Inl Assertion_failed"
    by blast
  from u1 unsubscribe_external_no_callback [where addr = ?l and a = example_actor
      and callback = "Some 5" and h = example_handler and a' = ?a1]
  have c2: "supervisor ?l = self example_actor" by blast
  from u2 e unsubscribe_external_no_callback [where addr = ?e and a = example_actor
      and callback = None and h = example_handler and a' = ?a2]
  have "queue ?a2 = queue example_actor @ [Message (actor_ptr_address example_handler)
                (External_unsubscription_t (Subscription_point_t example_handler ?e))]"
    by blast
  then have c3: "queue ?a2 = [Message ?d
                (External_unsubscription_t (Subscription_point_t example_handler ?e))]"
    unfolding q d by simp
  from e c1 u1 c2 u2 c3 show ?thesis by blast
qed

section \<open>The message envelope\<close>



section \<open>The shutdown trigger\<close>

text \<open>
  Claim C9. \<^verbatim>\<open>do_shutdown()\<close> asserts that the state is neither \<^verbatim>\<open>NEW\<close> nor
  \<^verbatim>\<open>UNKNOWN\<close>. When that holds it returns, having added exactly one message to the
  queue, a \<^verbatim>\<open>shutdown_trigger\<close> that carries the actor's own address and is addressed
  to the supervisor's address, and having changed nothing else of the actor. In the
  states \<^verbatim>\<open>NEW\<close> and \<^verbatim>\<open>UNKNOWN\<close> the assertion fails: the call is an error, not a
  no-op.
\<close>

theorem do_shutdown_trigger:
  "(state a \<noteq> NEW \<and> state a \<noteq> UNKNOWN \<longrightarrow>
      (\<exists>a'. do_shutdown a = Inr a'
          \<and> queue a' = queue a @ [Message (supervisor_get_address a) (Shutdown_trigger_t (address a))]
          \<and> a'\<lparr>queue := queue a\<rparr> = a))
   \<and> (state a = NEW \<or> state a = UNKNOWN \<longrightarrow> do_shutdown a = Inl Assertion_failed)"
  by (simp add: do_shutdown_def send_def)

theorem do_shutdown_trigger_witness:
  "state (example_actor\<lparr>state := OPERATIONAL\<rparr>) \<noteq> NEW
   \<and> state (example_actor\<lparr>state := OPERATIONAL\<rparr>) \<noteq> UNKNOWN
   \<and> (\<exists>a'. do_shutdown (example_actor\<lparr>state := OPERATIONAL\<rparr>) = Inr a'
          \<and> queue a' = [Message \<lparr>ident = 1, supervisor = 7\<rparr>
                            (Shutdown_trigger_t \<lparr>ident = 2, supervisor = 7\<rparr>)])
   \<and> state example_actor = NEW
   \<and> do_shutdown example_actor = Inl Assertion_failed"
proof -
  let ?a = "example_actor\<lparr>state := OPERATIONAL\<rparr>"
  have h: "state ?a \<noteq> NEW \<and> state ?a \<noteq> UNKNOWN" by simp
  have q: "queue ?a = [] \<and> supervisor_get_address ?a = \<lparr>ident = 1, supervisor = 7\<rparr>
           \<and> address ?a = \<lparr>ident = 2, supervisor = 7\<rparr>"
    by (simp add: example_actor_def)
  have n: "state example_actor = NEW" by (simp add: example_actor_def)
  from h do_shutdown_trigger [of ?a] obtain a' where
    "do_shutdown ?a = Inr a'"
    "queue a' = queue ?a @ [Message (supervisor_get_address ?a) (Shutdown_trigger_t (address ?a))]"
    by blast
  moreover from n do_shutdown_trigger [of example_actor]
  have "do_shutdown example_actor = Inl Assertion_failed" by blast
  ultimately show ?thesis using h q n by simp
qed

end
